theory Spec2Isabelle
  imports Main "HOL-Library.Word"
begin

unbundle bit_operations_syntax

section \<open>WS2812B single-wire LED driver over SPI (leds-spi-single-wire.c)\<close>

text \<open>
  The driver turns three 8-bit colour channels into an oversampled bit stream, keeps one
  command buffer for all chips of a group, and sends the whole buffer, padded by one byte
  on either side, with every brightness change.  The definitions below follow the C
  source function by function; memory that the C code reaches through pointers is a byte
  list addressed by offset, and an access outside an allocation is the explicit result
  \<open>Inl OutOfBounds\<close>.
\<close>

type_synonym u8 = "8 word"
type_synonym u32 = "32 word"

subsection \<open>Encoded byte tables\<close>

text \<open>
  The tables are declared \<open>const char\<close> and only ever stored into \<open>u8\<close> members, so
  each entry is taken as the 8-bit pattern written in the source.
\<close>

definition byte2encoding_h :: "u8 list" where
  "byte2encoding_h = [0x92, 0x93, 0x9a, 0x9b, 0xd2, 0xd3, 0xda, 0xdb]"

definition byte2encoding_m :: "u8 list" where
  "byte2encoding_m = [0x49, 0x4d, 0x69, 0x6d]"

definition byte2encoding_l :: "u8 list" where
  "byte2encoding_l = [0x24, 0x26, 0x34, 0x36, 0xa4, 0xa6, 0xb4, 0xb6]"

record ws2812b_encoding =
  h :: u8
  m :: u8
  l :: u8

record ws2812b_pixel =
  r :: ws2812b_encoding
  g :: ws2812b_encoding
  b :: ws2812b_encoding

text \<open>The three index expressions of \<open>ws2812b_set_encoded_pixel\<close>.\<close>

definition h_index :: "u8 \<Rightarrow> nat" where
  "h_index val = unat (drop_bit 5 val AND 0x07)"

definition m_index :: "u8 \<Rightarrow> nat" where
  "m_index val = unat (drop_bit 3 val AND 0x03)"

definition l_index :: "u8 \<Rightarrow> nat" where
  "l_index val = unat (drop_bit 0 val AND 0x07)"

definition ws2812b_set_encoded_pixel :: "u8 \<Rightarrow> ws2812b_encoding" where
  "ws2812b_set_encoded_pixel val =
     \<lparr> h = byte2encoding_h ! h_index val,
       m = byte2encoding_m ! m_index val,
       l = byte2encoding_l ! l_index val \<rparr>"

text \<open>
  \<open>ws2812b_set_pixel_value\<close> assigns the members of the pixel it is handed in the order
  green, red, blue.
\<close>

definition ws2812b_set_pixel_value :: "ws2812b_pixel \<Rightarrow> u8 \<Rightarrow> u8 \<Rightarrow> u8 \<Rightarrow> ws2812b_pixel" where
  "ws2812b_set_pixel_value spix rv gv bv =
     spix\<lparr> g := ws2812b_set_encoded_pixel gv,
           r := ws2812b_set_encoded_pixel rv,
           b := ws2812b_set_encoded_pixel bv \<rparr>"

text \<open>
  The object representation that \<open>memcpy (..., &spix, sizeof (spix))\<close> reads: the members
  in declaration order.  All members are \<open>u8\<close>, so there is no padding and
  \<open>sizeof (struct ws2812b_pixel)\<close> is 9.
\<close>

definition encoding_bytes :: "ws2812b_encoding \<Rightarrow> u8 list" where
  "encoding_bytes e = [h e, m e, l e]"

definition pixel_bytes :: "ws2812b_pixel \<Rightarrow> u8 list" where
  "pixel_bytes p = encoding_bytes (r p) @ encoding_bytes (g p) @ encoding_bytes (b p)"

subsection \<open>The oversampled stream and its decoder\<close>

text \<open>
  The bits of a byte, most significant first, as the bus shifts them out, and the value
  of such a bit list.
\<close>

definition byte_bits :: "u8 \<Rightarrow> bool list" where
  "byte_bits w = map (bit w) [7, 6, 5, 4, 3, 2, 1, 0]"

definition bits_byte :: "bool list \<Rightarrow> u8" where
  "bits_byte bs = foldl (\<lambda>acc x. 2 * acc + (if x then 1 else 0)) 0 bs"

definition oversampled_stream :: "ws2812b_encoding \<Rightarrow> bool list" where
  "oversampled_stream e = byte_bits (h e) @ byte_bits (m e) @ byte_bits (l e)"

text \<open>
  The bit rule stated in the source's table comment: zero is sent as 100, one as 110.
\<close>

definition bit_pattern :: "bool \<Rightarrow> bool list" where
  "bit_pattern x = (if x then [True, True, False] else [True, False, False])"

text \<open>
  The decoder is not part of the driver.  It follows the specification's description:
  it reads the stream three bits at a time, maps 100 to a zero bit and 110 to a one bit,
  and rejects every other group.
\<close>

fun decode_bits :: "bool list \<Rightarrow> bool list option" where
  "decode_bits [] = Some []"
| "decode_bits (True # False # False # xs) = map_option (Cons False) (decode_bits xs)"
| "decode_bits (True # True # False # xs) = map_option (Cons True) (decode_bits xs)"
| "decode_bits _ = None"

definition decode :: "ws2812b_encoding \<Rightarrow> u8 option" where
  "decode e = map_option bits_byte (decode_bits (oversampled_stream e))"

subsection \<open>Chip description and LED objects\<close>

record spi_ws2812b_chipdef =
  chip_num :: u8
  led_ctrl_cmd_len :: u8
  led_num_channels :: u8

definition miwifi_ws2812b_spi_led :: spi_ws2812b_chipdef where
  "miwifi_ws2812b_spi_led = \<lparr> chip_num = 2, led_ctrl_cmd_len = 9, led_num_channels = 3 \<rparr>"

text \<open>
  The multicolour LED class device of the kernel, as far as the driver touches it: the
  overall brightness and its maximum, and per sub-LED the colour, the scaled brightness,
  the intensity and the channel.
\<close>

datatype led_color_id = LED_COLOR_ID_WHITE | LED_COLOR_ID_RED | LED_COLOR_ID_GREEN | LED_COLOR_ID_BLUE

record mc_subled =
  color_index :: led_color_id
  brightness :: u32
  intensity :: u32
  channel :: u32

record led_classdev_mc =
  cdev_brightness :: int
  cdev_max_brightness :: int
  num_colors :: nat
  subled_info :: "mc_subled list"

text \<open>
  One \<open>struct spi_ws2812b_led\<close>.  The pointer \<open>led_ctrl_cmd\<close> points into the command
  buffer of the group and is kept as its byte offset from the start of that buffer.  The
  members \<open>spi\<close> and \<open>mutex\<close> carry no data of their own: there is one bus, whose
  traffic is recorded in the state below, and a call that runs alone always finds the
  lock free and leaves it free, so locking is modelled where calls overlap (see the
  subsection on brightness calls that overlap).
\<close>

record spi_ws2812b_led =
  mc_ldev :: led_classdev_mc
  cdef :: spi_ws2812b_chipdef
  led_ctrl_cmd :: int
  chip_id :: u8

text \<open>
  What the driver owns for one SPI device: the command buffer once it is allocated, the
  LED objects in the order of their chips, every frame handed to \<open>spi_write\<close> (oldest
  first), the LEDs registered with the LED class, and the driver data pointer.
\<close>

record driver_state =
  chip_cmd_buffer :: "u8 list option"
  leds :: "spi_ws2812b_led list"
  spi_writes :: "u8 list list"
  registered :: "nat list"
  drvdata :: "nat option"

definition initial_state :: driver_state where
  "initial_state = \<lparr> chip_cmd_buffer = None, leds = [], spi_writes = [], registered = [],
     drvdata = None \<rparr>"

datatype fault = OutOfBounds

definition ENOMEM :: int where
  "ENOMEM = 12"

definition ENODEV :: int where
  "ENODEV = 19"

text \<open>\<open>memcpy\<close> into and out of an allocation; leaving the allocation is a fault.\<close>

definition mem_write :: "u8 list \<Rightarrow> int \<Rightarrow> u8 list \<Rightarrow> fault + u8 list" where
  "mem_write mem off bytes =
     (if 0 \<le> off \<and> nat off + length bytes \<le> length mem
      then Inr (take (nat off) mem @ bytes @ drop (nat off + length bytes) mem)
      else Inl OutOfBounds)"

definition mem_read :: "u8 list \<Rightarrow> int \<Rightarrow> nat \<Rightarrow> fault + u8 list" where
  "mem_read mem off n =
     (if 0 \<le> off \<and> nat off + n \<le> length mem
      then Inr (take n (drop (nat off) mem))
      else Inl OutOfBounds)"

subsection \<open>Setting the brightness of one LED\<close>

text \<open>
  What the kernel answers during one call: whether \<open>kzalloc\<close> of the frame succeeds and
  what \<open>spi_write\<close> returns.
\<close>

record call_env =
  kzalloc_ok :: bool
  spi_write_ret :: int

text \<open>
  \<open>unsigned char ctrl_cmd_len = chip_num * led_ctrl_cmd_len\<close>: the product is cut to 8
  bits.  The frame has \<open>ctrl_cmd_len + 2\<close> bytes, computed in \<open>int\<close>.
\<close>

definition ctrl_cmd_len :: "spi_ws2812b_chipdef \<Rightarrow> u8" where
  "ctrl_cmd_len cd = chip_num cd * led_ctrl_cmd_len cd"

definition frame_size :: "spi_ws2812b_chipdef \<Rightarrow> nat" where
  "frame_size cd = unat (ctrl_cmd_len cd) + 2"

text \<open>
  \<open>ws2812b_rgb_led_brightness_set_blocking\<close> for the LED at position \<open>i\<close> of the state.
  \<open>calc\<close> stands for the kernel's \<open>led_mc_calc_color_components\<close>, which is not part of
  the driver: it scales the requested brightness into the sub-LED brightness values.
  The pixel \<open>spix\<close> lives on the stack and is not initialised; all its members are
  assigned before it is read, so it starts here from an arbitrary fixed value.
\<close>

definition stack_pixel :: ws2812b_pixel where
  "stack_pixel = \<lparr> r = \<lparr> h = 0, m = 0, l = 0 \<rparr>, g = \<lparr> h = 0, m = 0, l = 0 \<rparr>,
     b = \<lparr> h = 0, m = 0, l = 0 \<rparr> \<rparr>"

definition ws2812b_rgb_led_brightness_set_blocking ::
  "call_env \<Rightarrow> (led_classdev_mc \<Rightarrow> int \<Rightarrow> led_classdev_mc) \<Rightarrow> driver_state \<Rightarrow> nat \<Rightarrow> int
     \<Rightarrow> fault + (int \<times> driver_state)" where
  "ws2812b_rgb_led_brightness_set_blocking env calc s i brightness_req =
     (if length (leds s) \<le> i then Inl OutOfBounds
      else
        let led = leds s ! i;
            cd = cdef led
        in if \<not> kzalloc_ok env then Inr (- ENOMEM, s)
           else
             let ctrl_cmd_head = replicate (frame_size cd) (0 :: u8);
                 mc = calc (mc_ldev led) brightness_req
             in if length (subled_info mc) < 3 then Inl OutOfBounds
                else
                  let spix = ws2812b_set_pixel_value stack_pixel
                               (ucast (brightness (subled_info mc ! 0)))
                               (ucast (brightness (subled_info mc ! 1)))
                               (ucast (brightness (subled_info mc ! 2)))
                  in case chip_cmd_buffer s of
                       None \<Rightarrow> Inl OutOfBounds
                     | Some buf \<Rightarrow>
                        (case mem_write buf (led_ctrl_cmd led) (pixel_bytes spix) of
                           Inl f \<Rightarrow> Inl f
                         | Inr buf' \<Rightarrow>
                            (case mem_read buf'
                                    (led_ctrl_cmd led
                                       - int (unat (led_ctrl_cmd_len cd) * unat (chip_id led)))
                                    (unat (led_ctrl_cmd_len cd) * unat (chip_num cd)) of
                               Inl f \<Rightarrow> Inl f
                             | Inr payload \<Rightarrow>
                                (case mem_write ctrl_cmd_head 1 payload of
                                   Inl f \<Rightarrow> Inl f
                                 | Inr frame \<Rightarrow>
                                     Inr (spi_write_ret env,
                                          s\<lparr> chip_cmd_buffer := Some buf',
                                             leds := (leds s)
                                               [i := led\<lparr> mc_ldev := mc \<rparr>],
                                             spi_writes := spi_writes s @ [take (frame_size cd) frame]
                                           \<rparr>)))))"

subsection \<open>Probing the device\<close>

text \<open>
  A child node of the device tree, as far as the driver reads it, and the answers of the
  kernel during \<open>spi_ws2812b_probe\<close>: whether each allocation succeeds, what happens in
  the brightness call for each child, and what the registration of each LED returns.
  The per-child answers are indexed by the position of the child.
\<close>

record device_node =
  default_state :: "string option"

record probe_env =
  cmd_buffer_alloc_ok :: bool
  led_alloc_ok :: "nat \<Rightarrow> bool"
  subled_alloc_ok :: "nat \<Rightarrow> bool"
  set_env :: "nat \<Rightarrow> call_env"
  register_ret :: "nat \<Rightarrow> int"

definition LED_OFF :: int where
  "LED_OFF = 0"

definition LED_FULL :: int where
  "LED_FULL = 255"

definition zeroed_subled :: mc_subled where
  "zeroed_subled = \<lparr> color_index = LED_COLOR_ID_WHITE, brightness = 0, intensity = 0, channel = 0 \<rparr>"

text \<open>
  The LED object the loop body fills in for one child: three sub-LEDs red, green, blue on
  channels 0, 1, 2 in a zeroed array of \<open>led_num_channels\<close> entries, brightness off unless
  the child's \<open>default-state\<close> property is \<open>on\<close>, the chip description, the pointer to the
  slot of the current chip and the chip number.
\<close>

definition default_brightness :: "device_node \<Rightarrow> int" where
  "default_brightness chip_node =
     (case default_state chip_node of
        None \<Rightarrow> LED_OFF
      | Some st \<Rightarrow> if st = ''on'' then LED_FULL else LED_OFF)"

definition new_led :: "spi_ws2812b_chipdef \<Rightarrow> device_node \<Rightarrow> u8 \<Rightarrow> spi_ws2812b_led" where
  "new_led cd chip_node cur_chip_id =
     \<lparr> mc_ldev =
         \<lparr> cdev_brightness = default_brightness chip_node,
           cdev_max_brightness = LED_FULL,
           num_colors = unat (led_num_channels cd),
           subled_info = (replicate (unat (led_num_channels cd)) zeroed_subled)
             [0 := zeroed_subled\<lparr> color_index := LED_COLOR_ID_RED, channel := 0 \<rparr>,
              1 := zeroed_subled\<lparr> color_index := LED_COLOR_ID_GREEN, channel := 1 \<rparr>,
              2 := zeroed_subled\<lparr> color_index := LED_COLOR_ID_BLUE, channel := 2 \<rparr>] \<rparr>,
       cdef = cd,
       led_ctrl_cmd = int (unat (led_ctrl_cmd_len cd) * unat cur_chip_id),
       chip_id = cur_chip_id \<rparr>"

text \<open>
  The body of \<open>for_each_available_child_of_node\<close>, one child after the other.  Writing
  the three sub-LED entries leaves the array when it has fewer than three.  A new LED
  object enters the state once it is filled in, just before its first brightness call,
  whose return value the driver drops.  The loop leaves with \<open>-ENOMEM\<close> as soon as an
  allocation or a registration fails.
\<close>

fun probe_children ::
  "probe_env \<Rightarrow> (led_classdev_mc \<Rightarrow> int \<Rightarrow> led_classdev_mc) \<Rightarrow> spi_ws2812b_chipdef
     \<Rightarrow> device_node list \<Rightarrow> u8 \<Rightarrow> driver_state \<Rightarrow> fault + (int \<times> driver_state)" where
  "probe_children env calc cd [] cur_chip_id s = Inr (0, s)"
| "probe_children env calc cd (chip_node # rest) cur_chip_id s =
     (let k = length (leds s) in
      if \<not> led_alloc_ok env k then Inr (- ENOMEM, s)
      else if \<not> subled_alloc_ok env k then Inr (- ENOMEM, s)
      else if unat (led_num_channels cd) < 3 then Inl OutOfBounds
      else
        case ws2812b_rgb_led_brightness_set_blocking (set_env env k) calc
               (s\<lparr> leds := leds s @ [new_led cd chip_node cur_chip_id] \<rparr>) k
               (default_brightness chip_node) of
          Inl f \<Rightarrow> Inl f
        | Inr (ret_ignored, s1) \<Rightarrow>
            let s2 = s1\<lparr> drvdata := Some k \<rparr> in
            if register_ret env k < 0 then Inr (- ENOMEM, s2)
            else probe_children env calc cd rest (cur_chip_id + 1)
                   (s2\<lparr> registered := registered s2 @ [k] \<rparr>))"

text \<open>
  \<open>spi_ws2812b_probe\<close>: \<open>match\<close> is the result of \<open>device_get_match_data\<close>, \<open>children\<close>
  are the available child nodes in device order.
\<close>

definition spi_ws2812b_probe ::
  "probe_env \<Rightarrow> (led_classdev_mc \<Rightarrow> int \<Rightarrow> led_classdev_mc) \<Rightarrow> spi_ws2812b_chipdef option
     \<Rightarrow> device_node list \<Rightarrow> fault + (int \<times> driver_state)" where
  "spi_ws2812b_probe env calc match children =
     (case match of
        None \<Rightarrow> Inr (- ENODEV, initial_state)
      | Some cd \<Rightarrow>
          let chip_count = int (length children) in
          if chip_count = 0 \<or> chip_count \<noteq> uint (chip_num cd) then Inr (- ENODEV, initial_state)
          else if \<not> cmd_buffer_alloc_ok env then Inr (- ENOMEM, initial_state)
          else probe_children env calc cd children 0
                 (initial_state\<lparr> chip_cmd_buffer :=
                    Some (replicate (unat (led_ctrl_cmd_len cd) * unat (chip_num cd)) 0) \<rparr>))"

text \<open>
  A brightness scaling that gives every sub-LED the requested brightness: one possible
  behaviour of the kernel helper, used to run the driver on concrete inputs.
\<close>

definition scale_uniform :: "led_classdev_mc \<Rightarrow> int \<Rightarrow> led_classdev_mc" where
  "scale_uniform mc req = mc\<lparr> subled_info := map (\<lambda>sub. sub\<lparr> brightness := word_of_int req \<rparr>) (subled_info mc) \<rparr>"

definition always_ok :: probe_env where
  "always_ok = \<lparr> cmd_buffer_alloc_ok = True, led_alloc_ok = (\<lambda>k. True),
     subled_alloc_ok = (\<lambda>k. True),
     set_env = (\<lambda>k. \<lparr> kzalloc_ok = True, spi_write_ret = 0 \<rparr>),
     register_ret = (\<lambda>k. 0) \<rparr>"

subsection \<open>Well-formed driver states\<close>

text \<open>
  What \<open>spi_ws2812b_probe\<close> sets up and every later call keeps: the command buffer has
  one slot of \<open>led_ctrl_cmd_len\<close> bytes per chip, and the LED at position \<open>i\<close> carries
  the chip description, the chip number \<open>i\<close> and a pointer to the start of slot \<open>i\<close>.
\<close>

definition led_wf :: "spi_ws2812b_chipdef \<Rightarrow> nat \<times> spi_ws2812b_led \<Rightarrow> bool" where
  "led_wf cd p = (case p of (i, led) \<Rightarrow>
     cdef led = cd \<and> unat (chip_id led) = i \<and> i < unat (chip_num cd)
     \<and> led_ctrl_cmd led = int (unat (led_ctrl_cmd_len cd) * i))"

definition state_wf :: "spi_ws2812b_chipdef \<Rightarrow> driver_state \<Rightarrow> bool" where
  "state_wf cd s =
     ((case chip_cmd_buffer s of
         None \<Rightarrow> False
       | Some buf \<Rightarrow> length buf = unat (led_ctrl_cmd_len cd) * unat (chip_num cd))
      \<and> list_all (led_wf cd) (enumerate 0 (leds s)))"

text \<open>The nine bytes a call stores for a LED: the pixel encoded from the scaled channels.\<close>

definition requested_pixel ::
  "(led_classdev_mc \<Rightarrow> int \<Rightarrow> led_classdev_mc) \<Rightarrow> spi_ws2812b_led \<Rightarrow> int \<Rightarrow> u8 list" where
  "requested_pixel calc led req =
     (let mc = calc (mc_ldev led) req
      in pixel_bytes (ws2812b_set_pixel_value stack_pixel
           (ucast (brightness (subled_info mc ! 0)))
           (ucast (brightness (subled_info mc ! 1)))
           (ucast (brightness (subled_info mc ! 2)))))"

subsection \<open>Sample inputs\<close>

text \<open>
  The state after probing the shipped two-chip description with one child that is off by
  default and one that is on, every kernel service succeeding.
\<close>

definition probed_state :: driver_state where
  "probed_state =
     (case spi_ws2812b_probe always_ok scale_uniform (Some miwifi_ws2812b_spi_led)
             [\<lparr> default_state = None \<rparr>, \<lparr> default_state = Some ''on'' \<rparr>] of
        Inl f \<Rightarrow> initial_state
      | Inr (ret, s) \<Rightarrow> s)"

definition env_ok :: call_env where
  "env_ok = \<lparr> kzalloc_ok = True, spi_write_ret = 0 \<rparr>"

definition env_nomem :: call_env where
  "env_nomem = \<lparr> kzalloc_ok = False, spi_write_ret = 0 \<rparr>"

text \<open>A transfer that the bus rejects with \<open>-EIO\<close>.\<close>

definition env_eio :: call_env where
  "env_eio = \<lparr> kzalloc_ok = True, spi_write_ret = - 5 \<rparr>"

text \<open>
  A scaling that sets the red sub-LED to the requested brightness and leaves the others,
  and the states reached from the probed state by three sample calls: one whose bus write
  fails, a later one for the other LED that succeeds, and one that turns LED 0 red.
\<close>

definition scale_red_only :: "led_classdev_mc \<Rightarrow> int \<Rightarrow> led_classdev_mc" where
  "scale_red_only mc req =
     mc\<lparr> subled_info := (subled_info mc)[0 := (subled_info mc ! 0)\<lparr> brightness := word_of_int req \<rparr>] \<rparr>"

definition failed_state :: driver_state where
  "failed_state =
     (case ws2812b_rgb_led_brightness_set_blocking env_eio scale_uniform probed_state 0 255 of
        Inl f \<Rightarrow> initial_state
      | Inr (ret, s) \<Rightarrow> s)"

definition resent_state :: driver_state where
  "resent_state =
     (case ws2812b_rgb_led_brightness_set_blocking env_ok scale_uniform failed_state 1 0 of
        Inl f \<Rightarrow> initial_state
      | Inr (ret, s) \<Rightarrow> s)"

definition red_state :: driver_state where
  "red_state =
     (case ws2812b_rgb_led_brightness_set_blocking env_ok scale_red_only probed_state 0 255 of
        Inl f \<Rightarrow> initial_state
      | Inr (ret, s) \<Rightarrow> s)"

subsection \<open>Brightness calls that overlap\<close>

text \<open>
  The LED core may run the brightness calls of different LEDs at the same time.  Here a
  running call is an activation record with a program counter that walks through the
  statements of \<open>ws2812b_rgb_led_brightness_set_blocking\<close>, and a system is the driver
  state, the state of the \<open>mutex\<close> member of every LED object, and the calls in progress.
  \<open>mutex_lock (&led->mutex)\<close> takes the mutex of the LED object the call is for: the
  probe allocates one \<open>struct spi_ws2812b_led\<close> per child and runs \<open>mutex_init\<close> on the
  mutex inside each.  \<open>spi_write\<close> is one step: the SPI core completes a transfer before
  it starts the next.
\<close>

datatype pc =
  At_kzalloc | At_mutex_lock | At_calc | At_store_pixel | At_copy_buffer | At_spi_write
  | At_mutex_unlock | At_kfree | Returned

record running_call =
  call_led :: nat
  call_req :: int
  call_kernel :: call_env
  call_pc :: pc
  call_spix :: ws2812b_pixel
  call_head :: "u8 list"
  call_ret :: int

record system =
  shared :: driver_state
  mutex_held :: "bool list"
  running :: "running_call list"

datatype step_result = Stepped system | Blocked | Finished | Faulted

text \<open>
  One step of call \<open>t\<close>.  A call that waits for a held mutex is \<open>Blocked\<close>, a call that
  has returned is \<open>Finished\<close>, a memory access outside an allocation is \<open>Faulted\<close>.
\<close>

definition call_step ::
  "(led_classdev_mc \<Rightarrow> int \<Rightarrow> led_classdev_mc) \<Rightarrow> system \<Rightarrow> nat \<Rightarrow> step_result" where
  "call_step calc sys t =
     (if length (running sys) \<le> t then Finished
      else
        let c = running sys ! t;
            s = shared sys;
            i = call_led c
        in if length (leds s) \<le> i \<or> length (mutex_held sys) \<le> i then Faulted
           else
             let led = leds s ! i;
                 cd = cdef led;
                 next = (\<lambda>c' s' held'.
                    Stepped (sys\<lparr> shared := s', mutex_held := held',
                                   running := (running sys)[t := c'] \<rparr>))
             in case call_pc c of
                  At_kzalloc \<Rightarrow>
                    if kzalloc_ok (call_kernel c)
                    then next (c\<lparr> call_head := replicate (frame_size cd) 0,
                                   call_pc := At_mutex_lock \<rparr>) s (mutex_held sys)
                    else next (c\<lparr> call_ret := - ENOMEM, call_pc := Returned \<rparr>) s (mutex_held sys)
                | At_mutex_lock \<Rightarrow>
                    if mutex_held sys ! i then Blocked
                    else next (c\<lparr> call_pc := At_calc \<rparr>) s ((mutex_held sys)[i := True])
                | At_calc \<Rightarrow>
                    let mc = calc (mc_ldev led) (call_req c)
                    in if length (subled_info mc) < 3 then Faulted
                       else next (c\<lparr> call_spix := ws2812b_set_pixel_value (call_spix c)
                                         (ucast (brightness (subled_info mc ! 0)))
                                         (ucast (brightness (subled_info mc ! 1)))
                                         (ucast (brightness (subled_info mc ! 2))),
                                      call_pc := At_store_pixel \<rparr>)
                              (s\<lparr> leds := (leds s)[i := led\<lparr> mc_ldev := mc \<rparr>] \<rparr>)
                              (mutex_held sys)
                | At_store_pixel \<Rightarrow>
                    (case chip_cmd_buffer s of
                       None \<Rightarrow> Faulted
                     | Some buf \<Rightarrow>
                        (case mem_write buf (led_ctrl_cmd led) (pixel_bytes (call_spix c)) of
                           Inl f \<Rightarrow> Faulted
                         | Inr buf' \<Rightarrow>
                             next (c\<lparr> call_pc := At_copy_buffer \<rparr>)
                               (s\<lparr> chip_cmd_buffer := Some buf' \<rparr>) (mutex_held sys)))
                | At_copy_buffer \<Rightarrow>
                    (case chip_cmd_buffer s of
                       None \<Rightarrow> Faulted
                     | Some buf \<Rightarrow>
                        (case mem_read buf
                                (led_ctrl_cmd led
                                   - int (unat (led_ctrl_cmd_len cd) * unat (chip_id led)))
                                (unat (led_ctrl_cmd_len cd) * unat (chip_num cd)) of
                           Inl f \<Rightarrow> Faulted
                         | Inr payload \<Rightarrow>
                            (case mem_write (call_head c) 1 payload of
                               Inl f \<Rightarrow> Faulted
                             | Inr frame \<Rightarrow>
                                 next (c\<lparr> call_head := frame, call_pc := At_spi_write \<rparr>)
                                   s (mutex_held sys))))
                | At_spi_write \<Rightarrow>
                    next (c\<lparr> call_ret := spi_write_ret (call_kernel c),
                              call_pc := At_mutex_unlock \<rparr>)
                      (s\<lparr> spi_writes := spi_writes s @ [take (frame_size cd) (call_head c)] \<rparr>)
                      (mutex_held sys)
                | At_mutex_unlock \<Rightarrow>
                    next (c\<lparr> call_pc := At_kfree \<rparr>) s ((mutex_held sys)[i := False])
                | At_kfree \<Rightarrow>
                    next (c\<lparr> call_pc := Returned \<rparr>) s (mutex_held sys)
                | Returned \<Rightarrow> Finished)"

text \<open>A schedule names the call that takes each step.\<close>

fun run ::
  "(led_classdev_mc \<Rightarrow> int \<Rightarrow> led_classdev_mc) \<Rightarrow> system \<Rightarrow> nat list \<Rightarrow> step_result" where
  "run calc sys [] = Stepped sys"
| "run calc sys (t # ts) =
     (case call_step calc sys t of
        Stepped sys' \<Rightarrow> run calc sys' ts
      | Blocked \<Rightarrow> Blocked
      | Finished \<Rightarrow> Finished
      | Faulted \<Rightarrow> Faulted)"

text \<open>A call is in its critical section from \<open>mutex_lock\<close> until \<open>mutex_unlock\<close> is done.\<close>

definition in_critical_section :: "running_call \<Rightarrow> bool" where
  "in_critical_section c =
     (call_pc c \<in> set [At_calc, At_store_pixel, At_copy_buffer, At_spi_write, At_mutex_unlock])"

definition entering :: "nat \<Rightarrow> int \<Rightarrow> call_env \<Rightarrow> running_call" where
  "entering i req env = \<lparr> call_led = i, call_req = req, call_kernel = env, call_pc = At_kzalloc,
     call_spix = stack_pixel, call_head = [], call_ret = 0 \<rparr>"

definition alone :: "driver_state \<Rightarrow> bool list \<Rightarrow> nat \<Rightarrow> int \<Rightarrow> call_env \<Rightarrow> system" where
  "alone s held i req env = \<lparr> shared = s, mutex_held = held, running = [entering i req env] \<rparr>"

text \<open>The result of a schedule that lets a single call run to its return.\<close>

fun outcome :: "step_result \<Rightarrow> (fault + (int \<times> driver_state)) option" where
  "outcome (Stepped sys) =
     (case running sys of
        [c] \<Rightarrow> if call_pc c = Returned then Some (Inr (call_ret c, shared sys)) else None
      | _ \<Rightarrow> None)"
| "outcome Faulted = Some (Inl OutOfBounds)"
| "outcome Blocked = None"
| "outcome Finished = None"

text \<open>
  Two calls on the probed two-chip state: one sets LED 0 to full brightness, the other
  turns LED 1 off; and two calls that are both for LED 0.
\<close>

definition two_calls :: system where
  "two_calls = \<lparr> shared = probed_state, mutex_held = [False, False],
     running = [entering 0 255 env_ok, entering 1 0 env_ok] \<rparr>"

definition same_led_calls :: system where
  "same_led_calls = \<lparr> shared = probed_state, mutex_held = [False, False],
     running = [entering 0 255 env_ok, entering 0 0 env_ok] \<rparr>"

section \<open>Properties of the encoder\<close>

lemma u8_all: "(\<forall>v::u8. P v) \<longleftrightarrow> (\<forall>n\<in>set [0..<256]. P (of_nat n))"
proof
  assume every: "\<forall>n\<in>set [0..<256]. P (of_nat n)"
  show "\<forall>v::u8. P v"
  proof
    fix v :: u8
    have "unat v < 256"
      using unsigned_less [of v, where 'a = nat] by simp
    then have "unat v \<in> set [0..<256]"
      by simp
    with every have "P (of_nat (unat v))"
      by blast
    then show "P v"
      by simp
  qed
qed simp

lemma table_lengths:
  "length byte2encoding_h = 8" "length byte2encoding_m = 4" "length byte2encoding_l = 8"
  by (simp_all add: byte2encoding_h_def byte2encoding_m_def byte2encoding_l_def)

text \<open>
  C1.  Encoding any 8-bit value with the three tables and decoding the three output bytes
  gives the value back: the round trip is the identity on all 256 inputs.
\<close>

theorem decode_encode_roundtrip:
  "\<forall>v. decode (ws2812b_set_encoded_pixel v) = Some v"
  unfolding u8_all by code_simp

text \<open>
  C8.  The encoder yields one byte for each of the three groups, and the 24-bit stream
  made of these bytes is, group of three by group of three, the pattern 100 or 110 of the
  corresponding bit of the input, most significant bit first.
\<close>

theorem encode_stream_patterns:
  "\<forall>v. encoding_bytes (ws2812b_set_encoded_pixel v)
          = [byte2encoding_h ! h_index v, byte2encoding_m ! m_index v, byte2encoding_l ! l_index v]
      \<and> length (oversampled_stream (ws2812b_set_encoded_pixel v)) = 24
      \<and> oversampled_stream (ws2812b_set_encoded_pixel v) = concat (map bit_pattern (byte_bits v))"
  unfolding u8_all by code_simp

text \<open>
  C10.  The index into each table is masked below the table's size (8, 4 and 8 entries),
  so no input makes a lookup leave its table.
\<close>

theorem encode_indices_in_bounds:
  "h_index v < 8 \<and> h_index v < length byte2encoding_h
   \<and> m_index v < 4 \<and> m_index v < length byte2encoding_m
   \<and> l_index v < 8 \<and> l_index v < length byte2encoding_l"
proof -
  have "\<forall>w. h_index w < 8 \<and> m_index w < 4 \<and> l_index w < 8"
    unfolding u8_all by code_simp
  then show ?thesis
    by (simp add: table_lengths)
qed

section \<open>Properties of the brightness call\<close>

lemma length_pixel_bytes: "length (pixel_bytes p) = 9"
  by (simp add: pixel_bytes_def encoding_bytes_def)

lemma length_requested_pixel: "length (requested_pixel calc led req) = 9"
  by (simp add: requested_pixel_def Let_def length_pixel_bytes)

lemma state_wf_led:
  assumes "state_wf cd s" "i < length (leds s)"
  shows "cdef (leds s ! i) = cd" "unat (chip_id (leds s ! i)) = i" "i < unat (chip_num cd)"
    "led_ctrl_cmd (leds s ! i) = int (unat (led_ctrl_cmd_len cd) * i)"
proof -
  have "(i, leds s ! i) \<in> set (enumerate 0 (leds s))"
    using assms(2) by (simp add: in_set_enumerate_eq)
  then have "led_wf cd (i, leds s ! i)"
    using assms(1) by (simp add: state_wf_def list_all_iff)
  then show "cdef (leds s ! i) = cd" "unat (chip_id (leds s ! i)) = i" "i < unat (chip_num cd)"
    "led_ctrl_cmd (leds s ! i) = int (unat (led_ctrl_cmd_len cd) * i)"
    by (simp_all add: led_wf_def)
qed

lemma state_wf_buffer:
  assumes "state_wf cd s"
  obtains buf where "chip_cmd_buffer s = Some buf"
    "length buf = unat (led_ctrl_cmd_len cd) * unat (chip_num cd)"
  using assms by (auto simp: state_wf_def split: option.splits)

lemma frame_fits:
  fixes a c :: u8
  assumes "Suc (unat a * unat c) \<le> unat (c * a) + 2"
  shows "unat a * unat c \<le> 255"
proof (rule ccontr)
  assume "\<not> unat a * unat c \<le> 255"
  then have big: "256 \<le> unat a * unat c" by simp
  have m: "unat (c * a) = (unat a * unat c) mod 256"
    by (simp add: unat_word_ariths mult.commute)
  have "(unat a * unat c) mod 256 < 256" by simp
  with assms m have "unat a * unat c \<le> 256" by linarith
  with big have "unat a * unat c = 256" by simp
  with assms m show False by simp
qed

lemma unat_ctrl_cmd_len:
  assumes "unat (led_ctrl_cmd_len cd) * unat (chip_num cd) \<le> 255"
  shows "unat (ctrl_cmd_len cd) = unat (led_ctrl_cmd_len cd) * unat (chip_num cd)"
  using assms by (simp add: ctrl_cmd_len_def unat_word_ariths mult.commute)

lemma mem_write_Inr:
  assumes "mem_write mem off bytes = Inr mem'"
  shows "0 \<le> off" "nat off + length bytes \<le> length mem"
    "mem' = take (nat off) mem @ bytes @ drop (nat off + length bytes) mem"
  using assms by (auto simp: mem_write_def split: if_splits)

lemma mem_read_Inr:
  assumes "mem_read mem off n = Inr bytes"
  shows "0 \<le> off" "nat off + n \<le> length mem" "bytes = take n (drop (nat off) mem)"
  using assms by (auto simp: mem_read_def split: if_splits)

lemma padded_frame:
  "take (Suc 0) (replicate (length bs + 2) (0::u8)) @ bs
     @ drop (Suc (length bs)) (replicate (length bs + 2) 0) = 0 # bs @ [0]"
proof -
  have "drop (Suc (length bs)) (replicate (length bs + 2) (0::u8)) = replicate 1 0"
    unfolding drop_replicate by simp
  then show ?thesis
    by simp
qed

lemma set_brightness_unfold:
  assumes wf: "state_wf cd s" and i: "i < length (leds s)" and ok: "kzalloc_ok env"
    and buf: "chip_cmd_buffer s = Some buf"
    and three: "3 \<le> length (subled_info (calc (mc_ldev (leds s ! i)) req))"
  shows "ws2812b_rgb_led_brightness_set_blocking env calc s i req =
     (case mem_write buf (int (unat (led_ctrl_cmd_len cd) * i)) (requested_pixel calc (leds s ! i) req) of
        Inl f \<Rightarrow> Inl f
      | Inr buf' \<Rightarrow>
         (case mem_read buf' 0 (unat (led_ctrl_cmd_len cd) * unat (chip_num cd)) of
            Inl f \<Rightarrow> Inl f
          | Inr payload \<Rightarrow>
             (case mem_write (replicate (frame_size cd) 0) 1 payload of
                Inl f \<Rightarrow> Inl f
              | Inr frame \<Rightarrow>
                  Inr (spi_write_ret env,
                       s\<lparr> chip_cmd_buffer := Some buf',
                          leds := (leds s)[i := (leds s ! i)\<lparr> mc_ldev := calc (mc_ldev (leds s ! i)) req \<rparr>],
                          spi_writes := spi_writes s @ [take (frame_size cd) frame] \<rparr>))))"
  using i ok buf three state_wf_led [OF wf i]
  by (simp add: ws2812b_rgb_led_brightness_set_blocking_def Let_def requested_pixel_def
        del: of_nat_mult cong: sum.case_cong)

lemma set_brightness_three:
  assumes "ws2812b_rgb_led_brightness_set_blocking env calc s i req = Inr (rv, s')" "kzalloc_ok env"
  shows "i < length (leds s)" "3 \<le> length (subled_info (calc (mc_ldev (leds s ! i)) req))"
  using assms
  by (auto simp: ws2812b_rgb_led_brightness_set_blocking_def Let_def split: if_splits)

text \<open>What a returning call with a successful allocation has done.\<close>

lemma set_brightness_returns:
  assumes wf: "state_wf cd s" and i: "i < length (leds s)"
    and ok: "kzalloc_ok env"
    and ret: "ws2812b_rgb_led_brightness_set_blocking env calc s i req = Inr (rv, s')"
  obtains buf where
    "chip_cmd_buffer s = Some buf"
    "length buf = unat (led_ctrl_cmd_len cd) * unat (chip_num cd)"
    "unat (led_ctrl_cmd_len cd) * i + 9 \<le> length buf"
    "unat (led_ctrl_cmd_len cd) * unat (chip_num cd) \<le> 255"
    "rv = spi_write_ret env"
    "s' = s\<lparr> chip_cmd_buffer :=
              Some (take (unat (led_ctrl_cmd_len cd) * i) buf
                    @ requested_pixel calc (leds s ! i) req
                    @ drop (unat (led_ctrl_cmd_len cd) * i + 9) buf),
            leds := (leds s)[i := (leds s ! i)\<lparr> mc_ldev := calc (mc_ldev (leds s ! i)) req \<rparr>],
            spi_writes := spi_writes s
              @ [0 # (take (unat (led_ctrl_cmd_len cd) * i) buf
                      @ requested_pixel calc (leds s ! i) req
                      @ drop (unat (led_ctrl_cmd_len cd) * i + 9) buf) @ [0]] \<rparr>"
proof -
  obtain buf where buf: "chip_cmd_buffer s = Some buf"
    and len: "length buf = unat (led_ctrl_cmd_len cd) * unat (chip_num cd)"
    using wf by (rule state_wf_buffer)
  note led = state_wf_led [OF wf i]
  define pix where "pix = requested_pixel calc (leds s ! i) req"
  have lpix: "length pix = 9"
    by (simp add: pix_def length_requested_pixel)
  define off where "off = unat (led_ctrl_cmd_len cd) * i"
  define n where "n = unat (led_ctrl_cmd_len cd) * unat (chip_num cd)"
  have eq: "(case mem_write buf (int off) pix of
        Inl f \<Rightarrow> Inl f
      | Inr buf' \<Rightarrow>
         (case mem_read buf' 0 n of
            Inl f \<Rightarrow> Inl f
          | Inr payload \<Rightarrow>
             (case mem_write (replicate (frame_size cd) 0) 1 payload of
                Inl f \<Rightarrow> Inl f
              | Inr frame \<Rightarrow>
                  Inr (spi_write_ret env,
                       s\<lparr> chip_cmd_buffer := Some buf',
                          leds := (leds s)[i := (leds s ! i)\<lparr> mc_ldev := calc (mc_ldev (leds s ! i)) req \<rparr>],
                          spi_writes := spi_writes s @ [take (frame_size cd) frame] \<rparr>))))
      = Inr (rv, s')"
    unfolding pix_def off_def n_def
    by (rule trans [OF set_brightness_unfold [where calc = calc and req = req, OF wf i ok buf
        set_brightness_three(2) [OF ret ok], symmetric] ret])
  obtain buf' where w1: "mem_write buf (int off) pix = Inr buf'"
    using eq by (cases "mem_write buf (int off) pix") auto
  obtain payload where r1: "mem_read buf' 0 n = Inr payload"
    using eq w1 by (cases "mem_read buf' 0 n") auto
  obtain frame where w2: "mem_write (replicate (frame_size cd) 0) 1 payload = Inr frame"
    using eq w1 r1 by (cases "mem_write (replicate (frame_size cd) 0) 1 payload") auto
  have res: "rv = spi_write_ret env"
    "s' = s\<lparr> chip_cmd_buffer := Some buf',
            leds := (leds s)[i := (leds s ! i)\<lparr> mc_ldev := calc (mc_ldev (leds s ! i)) req \<rparr>],
            spi_writes := spi_writes s @ [take (frame_size cd) frame] \<rparr>"
    using eq w1 r1 w2 by simp_all
  have fits: "off + 9 \<le> length buf" and buf': "buf' = take off buf @ pix @ drop (off + 9) buf"
    using mem_write_Inr [OF w1] lpix by simp_all
  have lbuf': "length buf' = n"
    using fits lpix len by (simp add: buf' n_def)
  have payload: "payload = buf'"
    using mem_read_Inr(3) [OF r1] lbuf' by simp
  have "Suc n \<le> frame_size cd"
    using mem_write_Inr(2) [OF w2] payload lbuf' by simp
  then have small: "n \<le> 255"
    unfolding n_def frame_size_def ctrl_cmd_len_def by (rule frame_fits)
  then have fs: "frame_size cd = n + 2"
    by (simp add: frame_size_def n_def unat_ctrl_cmd_len)
  have frame: "frame = 0 # buf' @ [0]"
    using mem_write_Inr(3) [OF w2] payload lbuf' fs padded_frame [of buf']
    by simp
  have "take (frame_size cd) frame = 0 # buf' @ [0]"
    using frame fs lbuf' by simp
  with res buf len fits small show ?thesis
    by (intro that [of buf]) (simp_all add: buf' off_def n_def pix_def)
qed


lemma set_brightness_progress:
  assumes wf: "state_wf cd s" and i: "i < length (leds s)" and ok: "kzalloc_ok env"
    and small: "unat (led_ctrl_cmd_len cd) * unat (chip_num cd) \<le> 255"
    and fits: "9 \<le> unat (led_ctrl_cmd_len cd)"
    and three: "3 \<le> length (subled_info (calc (mc_ldev (leds s ! i)) req))"
  shows "\<exists>s'. ws2812b_rgb_led_brightness_set_blocking env calc s i req = Inr (spi_write_ret env, s')"
proof -
  obtain buf where buf: "chip_cmd_buffer s = Some buf"
    and len: "length buf = unat (led_ctrl_cmd_len cd) * unat (chip_num cd)"
    using wf by (rule state_wf_buffer)
  have "Suc i \<le> unat (chip_num cd)"
    using state_wf_led(3) [OF wf i] by simp
  then have "unat (led_ctrl_cmd_len cd) * Suc i \<le> unat (led_ctrl_cmd_len cd) * unat (chip_num cd)"
    by (rule mult_le_mono2)
  then have room: "unat (led_ctrl_cmd_len cd) * i + 9 \<le> length buf"
    using fits len by simp
  define off where "off = unat (led_ctrl_cmd_len cd) * i"
  define n where "n = unat (led_ctrl_cmd_len cd) * unat (chip_num cd)"
  define pix where "pix = requested_pixel calc (leds s ! i) req"
  define buf' where "buf' = take off buf @ pix @ drop (off + 9) buf"
  have lpix: "length pix = 9"
    by (simp add: pix_def length_requested_pixel)
  have room': "off + 9 \<le> length buf"
    using room by (simp add: off_def)
  have w1: "mem_write buf (int off) pix = Inr buf'"
    using room' lpix by (simp add: mem_write_def buf'_def)
  have lbuf': "length buf' = n"
    using room' lpix len by (simp add: buf'_def n_def)
  have r1: "mem_read buf' 0 n = Inr buf'"
    using lbuf' by (simp add: mem_read_def)
  have fs: "frame_size cd = length buf' + 2"
    using small lbuf' by (simp add: frame_size_def unat_ctrl_cmd_len n_def)
  have w2: "mem_write (replicate (frame_size cd) 0) 1 buf' = Inr (0 # buf' @ [0])"
    unfolding fs using padded_frame [of buf'] by (simp add: mem_write_def)
  show ?thesis
    unfolding set_brightness_unfold [where calc = calc and req = req, OF wf i ok buf three]
      off_def [symmetric] n_def [symmetric] pix_def [symmetric]
    using w1 r1 w2 by simp
qed

text \<open>
  For the shipped description the call always returns once its frame is allocated, as long
  as the brightness scaling leaves the LED its three sub-LED entries.
\<close>

lemma shipped_call_returns:
  assumes "state_wf miwifi_ws2812b_spi_led s" "i < length (leds s)" "kzalloc_ok env"
    and "3 \<le> length (subled_info (calc (mc_ldev (leds s ! i)) req))"
  shows "\<exists>s'. ws2812b_rgb_led_brightness_set_blocking env calc s i req = Inr (spi_write_ret env, s')"
proof -
  have "unat (led_ctrl_cmd_len miwifi_ws2812b_spi_led) * unat (chip_num miwifi_ws2812b_spi_led) \<le> 255"
    "9 \<le> unat (led_ctrl_cmd_len miwifi_ws2812b_spi_led)"
    by (simp_all add: miwifi_ws2812b_spi_led_def)
  with assms show ?thesis
    by (intro set_brightness_progress [where calc = calc and req = req])
qed

lemma set_brightness_nomem:
  assumes "i < length (leds s)" and "\<not> kzalloc_ok env"
  shows "ws2812b_rgb_led_brightness_set_blocking env calc s i req = Inr (- ENOMEM, s)"
  using assms by (simp add: ws2812b_rgb_led_brightness_set_blocking_def Let_def)

lemma set_brightness_index:
  assumes "ws2812b_rgb_led_brightness_set_blocking env calc s i req = Inr (rv, s')"
  shows "i < length (leds s)"
  using assms
  by (auto simp: ws2812b_rgb_led_brightness_set_blocking_def Let_def split: if_splits)

lemma nth_overwritten:
  assumes "off + length pix \<le> length buf" "k < off \<or> off + length pix \<le> k" "k < length buf"
  shows "(take off buf @ pix @ drop (off + length pix) buf) ! k = buf ! k"
  using assms by (auto simp: nth_append)

lemma slot_overwritten:
  assumes "off + length pix \<le> length buf"
  shows "take (length pix) (drop off (take off buf @ pix @ drop (off + length pix) buf)) = pix"
  using assms by simp

lemma length_overwritten:
  assumes "off + length pix \<le> length buf"
  shows "length (take off buf @ pix @ drop (off + length pix) buf) = length buf"
  using assms by simp

lemma slot_elsewhere:
  assumes room: "off + length pix \<le> length buf"
    and apart: "off' + n \<le> off \<or> off + length pix \<le> off'"
    and inside: "off' + n \<le> length buf"
  shows "take n (drop off' (take off buf @ pix @ drop (off + length pix) buf)) = take n (drop off' buf)"
proof (rule nth_equalityI)
  note same = length_overwritten [OF room]
  show "length (take n (drop off' (take off buf @ pix @ drop (off + length pix) buf)))
      = length (take n (drop off' buf))"
    by (simp only: length_take length_drop same)
  fix k
  assume "k < length (take n (drop off' (take off buf @ pix @ drop (off + length pix) buf)))"
  then have k: "k < n"
    by (simp only: length_take length_drop same)
  then have "off' + k < off \<or> off + length pix \<le> off' + k" "off' + k < length buf"
    using apart inside by auto
  then have "(take off buf @ pix @ drop (off + length pix) buf) ! (off' + k) = buf ! (off' + k)"
    using room by (intro nth_overwritten) auto
  moreover have "off' \<le> length (take off buf @ pix @ drop (off + length pix) buf)"
    "off' \<le> length buf"
    using inside by (simp_all only: same)
  ultimately show "take n (drop off' (take off buf @ pix @ drop (off + length pix) buf)) ! k
      = take n (drop off' buf) ! k"
    using k by (simp only: nth_take nth_drop)
qed

lemma other_slot_offsets:
  fixes L :: nat
  assumes "k div L \<noteq> i" "9 \<le> L"
  shows "k < L * i \<or> L * i + 9 \<le> k"
proof (cases "k div L < i")
  case True
  then have "k < i * L"
    using assms(2) by (simp add: div_less_iff_less_mult)
  then show ?thesis
    by (simp add: mult.commute)
next
  case False
  with assms(1) have "Suc i \<le> k div L"
    by simp
  then have "Suc i * L \<le> k"
    using assms(2) by (simp add: less_eq_div_iff_mult_less_eq)
  then show ?thesis
    using assms(2) by (simp add: mult.commute)
qed

lemma set_brightness_cases:
  assumes wf: "state_wf cd s"
    and ret: "ws2812b_rgb_led_brightness_set_blocking env calc s i req = Inr (rv, s')"
  obtains (nomem) "\<not> kzalloc_ok env" "rv = - ENOMEM" "s' = s"
  | (sent) buf where "kzalloc_ok env"
      "chip_cmd_buffer s = Some buf"
      "length buf = unat (led_ctrl_cmd_len cd) * unat (chip_num cd)"
      "unat (led_ctrl_cmd_len cd) * i + 9 \<le> length buf"
      "rv = spi_write_ret env"
      "s' = s\<lparr> chip_cmd_buffer :=
              Some (take (unat (led_ctrl_cmd_len cd) * i) buf
                    @ requested_pixel calc (leds s ! i) req
                    @ drop (unat (led_ctrl_cmd_len cd) * i + 9) buf),
            leds := (leds s)[i := (leds s ! i)\<lparr> mc_ldev := calc (mc_ldev (leds s ! i)) req \<rparr>],
            spi_writes := spi_writes s
              @ [0 # (take (unat (led_ctrl_cmd_len cd) * i) buf
                      @ requested_pixel calc (leds s ! i) req
                      @ drop (unat (led_ctrl_cmd_len cd) * i + 9) buf) @ [0]] \<rparr>"
proof (cases "kzalloc_ok env")
  case False
  have "i < length (leds s)"
    using ret by (rule set_brightness_index)
  then have "rv = - ENOMEM" "s' = s"
    using ret set_brightness_nomem [OF _ False, of i s calc req] by simp_all
  with False show ?thesis
    by (rule nomem)
next
  case True
  have i: "i < length (leds s)"
    using ret by (rule set_brightness_index)
  from wf i True ret show ?thesis
    by (rule set_brightness_returns [where calc = calc and req = req]) (rule sent [OF True])
qed

lemma state_wf_after_call:
  assumes wf: "state_wf cd s"
    and ret: "ws2812b_rgb_led_brightness_set_blocking env calc s i req = Inr (rv, s')"
  shows "state_wf cd s' \<and> length (leds s') = length (leds s)"
  using wf ret
proof (cases rule: set_brightness_cases)
  case nomem
  then show ?thesis
    using wf by simp
next
  case (sent buf)
  note s' = sent(6)
  have i: "i < length (leds s)"
    using ret by (rule set_brightness_index)
  have "led_wf cd (k, leds s' ! k)" if k: "k < length (leds s')" for k
  proof -
    have "k < length (leds s)"
      using k by (simp add: s')
    from state_wf_led [OF wf this] show ?thesis
      using k by (cases "k = i") (simp_all add: s' led_wf_def)
  qed
  then have "list_all (led_wf cd) (enumerate 0 (leds s'))"
    by (auto simp: list_all_iff in_set_enumerate_eq)
  moreover have "length (take (unat (led_ctrl_cmd_len cd) * i) buf
                  @ requested_pixel calc (leds s ! i) req
                  @ drop (unat (led_ctrl_cmd_len cd) * i + 9) buf)
              = unat (led_ctrl_cmd_len cd) * unat (chip_num cd)"
    using sent(3,4) by (simp add: length_requested_pixel)
  ultimately show ?thesis
    by (simp add: state_wf_def s')
qed

lemma pixel_bytes_set_pixel_value:
  "pixel_bytes (ws2812b_set_pixel_value spix rv gv bv)
     = encoding_bytes (ws2812b_set_encoded_pixel rv)
       @ encoding_bytes (ws2812b_set_encoded_pixel gv)
       @ encoding_bytes (ws2812b_set_encoded_pixel bv)"
  by (simp add: pixel_bytes_def ws2812b_set_pixel_value_def)

text \<open>
  C4.  When the allocation of the frame fails, the call returns \<open>-ENOMEM\<close> and the state
  it returns is the state it was given: the command buffer, the LED and the record of bus
  writes are untouched, so no bus write has taken place.
\<close>

theorem alloc_failure_leaves_state:
  assumes "i < length (leds s)" and "\<not> kzalloc_ok env"
  shows "ws2812b_rgb_led_brightness_set_blocking env calc s i req = Inr (- ENOMEM, s)"
  using assms by (simp add: ws2812b_rgb_led_brightness_set_blocking_def Let_def)

theorem alloc_failure_leaves_state_witness:
  "0 < length (leds probed_state) \<and> \<not> kzalloc_ok env_nomem
   \<and> ws2812b_rgb_led_brightness_set_blocking env_nomem scale_uniform probed_state 0 255
       = Inr (- ENOMEM, probed_state)"
proof -
  have h1: "0 < length (leds probed_state)"
    by code_simp
  have h2: "\<not> kzalloc_ok env_nomem"
    by (simp add: env_nomem_def)
  show ?thesis
    using alloc_failure_leaves_state [OF h1 h2, of scale_uniform 255] h1 h2 by simp
qed

text \<open>
  C3.  On a group with \<open>chip_num\<close> chips and \<open>led_ctrl_cmd_len\<close> bytes per chip, every
  brightness call that gets its frame and returns has handed one frame to the bus: it has
  \<open>chip_num * led_ctrl_cmd_len + 2\<close> bytes, byte 0 is zero, the bytes after it are the whole
  command buffer of all chips as the call leaves it, and the last byte is zero.  (A call
  that returns has not left an allocation, so the 8-bit length variable has not wrapped;
  \<open>shipped_call_returns\<close> shows that the call returns for the shipped description of 2
  chips with 9 bytes each.)
\<close>

theorem frame_is_padded_buffer:
  assumes wf: "state_wf cd s" and ok: "kzalloc_ok env"
    and ret: "ws2812b_rgb_led_brightness_set_blocking env calc s i req = Inr (rv, s')"
  shows "\<exists>buf' frame.
           rv = spi_write_ret env
         \<and> chip_cmd_buffer s' = Some buf'
         \<and> length buf' = unat (chip_num cd) * unat (led_ctrl_cmd_len cd)
         \<and> spi_writes s' = spi_writes s @ [frame]
         \<and> length frame = unat (chip_num cd) * unat (led_ctrl_cmd_len cd) + 2
         \<and> frame ! 0 = 0
         \<and> take (unat (chip_num cd) * unat (led_ctrl_cmd_len cd)) (drop 1 frame) = buf'
         \<and> frame ! (unat (chip_num cd) * unat (led_ctrl_cmd_len cd) + 1) = 0"
proof -
  have i: "i < length (leds s)"
    using ret by (rule set_brightness_index)
  from wf i ok ret obtain buf where
    len: "length buf = unat (led_ctrl_cmd_len cd) * unat (chip_num cd)"
    and room: "unat (led_ctrl_cmd_len cd) * i + 9 \<le> length buf"
    and rv: "rv = spi_write_ret env"
    and s': "s' = s\<lparr> chip_cmd_buffer :=
              Some (take (unat (led_ctrl_cmd_len cd) * i) buf
                    @ requested_pixel calc (leds s ! i) req
                    @ drop (unat (led_ctrl_cmd_len cd) * i + 9) buf),
            leds := (leds s)[i := (leds s ! i)\<lparr> mc_ldev := calc (mc_ldev (leds s ! i)) req \<rparr>],
            spi_writes := spi_writes s
              @ [0 # (take (unat (led_ctrl_cmd_len cd) * i) buf
                      @ requested_pixel calc (leds s ! i) req
                      @ drop (unat (led_ctrl_cmd_len cd) * i + 9) buf) @ [0]] \<rparr>"
    by (rule set_brightness_returns [where calc = calc and req = req])
  define buf' where "buf' = take (unat (led_ctrl_cmd_len cd) * i) buf
                    @ requested_pixel calc (leds s ! i) req
                    @ drop (unat (led_ctrl_cmd_len cd) * i + 9) buf"
  have lbuf': "length buf' = unat (chip_num cd) * unat (led_ctrl_cmd_len cd)"
    using room len by (simp add: buf'_def length_requested_pixel mult.commute)
  have "chip_cmd_buffer s' = Some buf'" "spi_writes s' = spi_writes s @ [0 # buf' @ [0]]"
    by (simp_all add: s' buf'_def)
  moreover have "length (0 # buf' @ [0]) = unat (chip_num cd) * unat (led_ctrl_cmd_len cd) + 2"
    "(0 # buf' @ [0]) ! 0 = 0"
    "take (unat (chip_num cd) * unat (led_ctrl_cmd_len cd)) (drop 1 (0 # buf' @ [0])) = buf'"
    "(0 # buf' @ [0]) ! (unat (chip_num cd) * unat (led_ctrl_cmd_len cd) + 1) = 0"
    using lbuf' by (simp_all add: nth_append)
  ultimately show ?thesis
    using rv lbuf' by blast
qed

theorem frame_is_padded_buffer_witness:
  "state_wf miwifi_ws2812b_spi_led probed_state \<and> kzalloc_ok env_ok
   \<and> ws2812b_rgb_led_brightness_set_blocking env_ok scale_red_only probed_state 0 255
       = Inr (0, red_state)
   \<and> (\<exists>buf' frame.
           0 = spi_write_ret env_ok
         \<and> chip_cmd_buffer red_state = Some buf'
         \<and> length buf' = 18
         \<and> spi_writes red_state = spi_writes probed_state @ [frame]
         \<and> length frame = 20
         \<and> frame ! 0 = 0
         \<and> take 18 (drop 1 frame) = buf'
         \<and> frame ! 19 = 0)"
proof -
  have h1: "state_wf miwifi_ws2812b_spi_led probed_state"
    by code_simp
  have h2: "kzalloc_ok env_ok"
    by (simp add: env_ok_def)
  have h3: "ws2812b_rgb_led_brightness_set_blocking env_ok scale_red_only probed_state 0 255
       = Inr (0, red_state)"
    by code_simp
  have n: "unat (chip_num miwifi_ws2812b_spi_led) * unat (led_ctrl_cmd_len miwifi_ws2812b_spi_led) = 18"
    by (simp add: miwifi_ws2812b_spi_led_def)
  show ?thesis
    using frame_is_padded_buffer [OF h1 h2 h3] h1 h2 h3
    unfolding n by simp
qed

text \<open>
  C9.  A call for the LED of slot \<open>i\<close> changes no byte of the command buffer outside slot
  \<open>i\<close>, and the frame it sends carries those bytes of the other slots as they were.
\<close>

theorem other_slots_untouched:
  assumes wf: "state_wf cd s"
    and fits: "9 \<le> unat (led_ctrl_cmd_len cd)"
    and buf: "chip_cmd_buffer s = Some buf"
    and ret: "ws2812b_rgb_led_brightness_set_blocking env calc s i req = Inr (rv, s')"
  shows "\<exists>buf'. chip_cmd_buffer s' = Some buf' \<and> length buf' = length buf
           \<and> (\<forall>k<length buf. k div unat (led_ctrl_cmd_len cd) \<noteq> i \<longrightarrow> buf' ! k = buf ! k)
           \<and> (kzalloc_ok env \<longrightarrow>
                 (\<exists>frame. spi_writes s' = spi_writes s @ [frame]
                    \<and> (\<forall>k<length buf. k div unat (led_ctrl_cmd_len cd) \<noteq> i
                          \<longrightarrow> frame ! Suc k = buf ! k)))"
  using wf ret
proof (cases rule: set_brightness_cases)
  case nomem
  then show ?thesis
    using buf by simp
next
  case (sent buf0)
  define off where "off = unat (led_ctrl_cmd_len cd) * i"
  define pix where "pix = requested_pixel calc (leds s ! i) req"
  define buf' where "buf' = take off buf @ pix @ drop (off + length pix) buf"
  have lpix: "length pix = 9"
    by (simp add: pix_def length_requested_pixel)
  have same: "buf0 = buf"
    using sent(2) buf by simp
  have room: "off + length pix \<le> length buf"
    using sent(4) by (simp add: off_def lpix same)
  have lbuf': "length buf' = length buf"
    unfolding buf'_def using room by (rule length_overwritten)
  have keep: "buf' ! k = buf ! k" if "k < length buf" "k div unat (led_ctrl_cmd_len cd) \<noteq> i" for k
  proof -
    have "k < off \<or> off + length pix \<le> k"
      using other_slot_offsets [OF that(2) fits] by (simp add: off_def lpix)
    with room show ?thesis
      unfolding buf'_def using that(1) by (rule nth_overwritten)
  qed
  have s': "chip_cmd_buffer s' = Some buf'" "spi_writes s' = spi_writes s @ [0 # buf' @ [0]]"
    by (simp_all add: sent(6) buf'_def off_def pix_def lpix [unfolded pix_def] same)
  have "(0 # buf' @ [0]) ! Suc k = buf ! k"
    if "k < length buf" "k div unat (led_ctrl_cmd_len cd) \<noteq> i" for k
    using that keep [OF that] lbuf' by (simp add: nth_append)
  with s' lbuf' keep show ?thesis
    by blast
qed

theorem other_slots_untouched_witness:
  "state_wf miwifi_ws2812b_spi_led probed_state
   \<and> 9 \<le> unat (led_ctrl_cmd_len miwifi_ws2812b_spi_led)
   \<and> chip_cmd_buffer probed_state
       = Some [146, 73, 36, 146, 73, 36, 146, 73, 36, 219, 109, 182, 219, 109, 182, 219, 109, 182]
   \<and> ws2812b_rgb_led_brightness_set_blocking env_ok scale_red_only probed_state 0 255
       = Inr (0, red_state)
   \<and> (\<exists>buf'. chip_cmd_buffer red_state = Some buf'
         \<and> length buf' = length [146, 73, 36, 146, 73, 36, 146, 73, 36, 219, 109, 182, 219, 109, 182, 219, 109, 182 :: u8]
         \<and> (\<forall>k<length [146, 73, 36, 146, 73, 36, 146, 73, 36, 219, 109, 182, 219, 109, 182, 219, 109, 182 :: u8].
               k div unat (led_ctrl_cmd_len miwifi_ws2812b_spi_led) \<noteq> 0
               \<longrightarrow> buf' ! k = [146, 73, 36, 146, 73, 36, 146, 73, 36, 219, 109, 182, 219, 109, 182, 219, 109, 182] ! k)
         \<and> (kzalloc_ok env_ok \<longrightarrow>
               (\<exists>frame. spi_writes red_state = spi_writes probed_state @ [frame]
                  \<and> (\<forall>k<length [146, 73, 36, 146, 73, 36, 146, 73, 36, 219, 109, 182, 219, 109, 182, 219, 109, 182 :: u8].
                        k div unat (led_ctrl_cmd_len miwifi_ws2812b_spi_led) \<noteq> 0
                        \<longrightarrow> frame ! Suc k = [146, 73, 36, 146, 73, 36, 146, 73, 36, 219, 109, 182, 219, 109, 182, 219, 109, 182] ! k))))"
proof -
  have h1: "state_wf miwifi_ws2812b_spi_led probed_state"
    by code_simp
  have h2: "9 \<le> unat (led_ctrl_cmd_len miwifi_ws2812b_spi_led)"
    by (simp add: miwifi_ws2812b_spi_led_def)
  have h3: "chip_cmd_buffer probed_state
       = Some [146, 73, 36, 146, 73, 36, 146, 73, 36, 219, 109, 182, 219, 109, 182, 219, 109, 182]"
    by code_simp
  have h4: "ws2812b_rgb_led_brightness_set_blocking env_ok scale_red_only probed_state 0 255
       = Inr (0, red_state)"
    by code_simp
  show ?thesis
    using other_slots_untouched [OF h1 h2 h3 h4] h1 h2 h3 h4 by blast
qed

text \<open>
  C5.  When the bus write fails, the call returns what \<open>spi_write\<close> returned, and the slot
  of the calling LED holds the newly encoded pixel.  The frame of a later successful call
  for another LED carries that pixel in this slot; a later call for the same LED carries
  the pixel it has itself stored there.
\<close>

theorem failed_write_keeps_pixel:
  assumes wf: "state_wf cd s"
    and fits: "9 \<le> unat (led_ctrl_cmd_len cd)"
    and ok1: "kzalloc_ok env1" and failed: "spi_write_ret env1 \<noteq> 0"
    and ret1: "ws2812b_rgb_led_brightness_set_blocking env1 calc s i req1 = Inr (rv1, s1)"
    and ok2: "kzalloc_ok env2" and sent2: "spi_write_ret env2 = 0"
    and ret2: "ws2812b_rgb_led_brightness_set_blocking env2 calc s1 j req2 = Inr (rv2, s2)"
  shows "rv1 = spi_write_ret env1
       \<and> (\<exists>buf1. chip_cmd_buffer s1 = Some buf1
             \<and> take 9 (drop (unat (led_ctrl_cmd_len cd) * i) buf1)
                 = requested_pixel calc (leds s ! i) req1)
       \<and> rv2 = 0
       \<and> (\<exists>frame. spi_writes s2 = spi_writes s1 @ [frame]
             \<and> take 9 (drop (Suc (unat (led_ctrl_cmd_len cd) * i)) frame)
                 = (if j = i then requested_pixel calc (leds s1 ! i) req2
                    else requested_pixel calc (leds s ! i) req1))"
proof -
  define L where "L = unat (led_ctrl_cmd_len cd)"
  define pix1 where "pix1 = requested_pixel calc (leds s ! i) req1"
  define pix2 where "pix2 = requested_pixel calc (leds s1 ! j) req2"
  have lpix: "length pix1 = 9" "length pix2 = 9"
    by (simp_all add: pix1_def pix2_def length_requested_pixel)
  from wf ret1 obtain buf where
    room1: "L * i + 9 \<le> length buf"
    and rv1: "rv1 = spi_write_ret env1"
    and b1: "chip_cmd_buffer s1 = Some (take (L * i) buf @ pix1 @ drop (L * i + 9) buf)"
  proof (cases rule: set_brightness_cases)
    case nomem
    with ok1 show ?thesis
      by simp
  next
    case (sent buf)
    show ?thesis
      using sent by (intro that [of buf]) (simp_all add: L_def pix1_def)
  qed
  define buf1 where "buf1 = take (L * i) buf @ pix1 @ drop (L * i + 9) buf"
  have lbuf1: "length buf1 = length buf"
    unfolding buf1_def using length_overwritten [of "L * i" pix1 buf] room1 lpix by simp
  have slot1: "take 9 (drop (L * i) buf1) = pix1"
    unfolding buf1_def using slot_overwritten [of "L * i" pix1 buf] room1 lpix by simp
  have wf1: "state_wf cd s1"
    using state_wf_after_call [OF wf ret1] by simp
  from wf1 ret2 obtain buf1' where
    b1': "chip_cmd_buffer s1 = Some buf1'"
    and room2: "L * j + 9 \<le> length buf1'"
    and rv2: "rv2 = spi_write_ret env2"
    and w2: "spi_writes s2 = spi_writes s1 @ [0 # (take (L * j) buf1' @ pix2 @ drop (L * j + 9) buf1') @ [0]]"
  proof (cases rule: set_brightness_cases)
    case nomem
    with ok2 show ?thesis
      by simp
  next
    case (sent buf)
    show ?thesis
      using sent by (intro that [of buf]) (simp_all add: L_def pix2_def)
  qed
  have same: "buf1' = buf1"
    using b1 b1' by (simp add: buf1_def)
  define buf2 where "buf2 = take (L * j) buf1 @ pix2 @ drop (L * j + 9) buf1"
  have slot2: "take 9 (drop (L * i) buf2) = (if j = i then pix2 else pix1)"
  proof (cases "j = i")
    case True
    then show ?thesis
      unfolding buf2_def using slot_overwritten [of "L * j" pix2 buf1] room2 lpix same by simp
  next
    case False
    then have "i < j \<or> j < i"
      by auto
    then have "Suc i \<le> j \<or> Suc j \<le> i"
      by auto
    then have "L * Suc i \<le> L * j \<or> L * Suc j \<le> L * i"
      using mult_le_mono2 [of "Suc i" j L] mult_le_mono2 [of "Suc j" i L] by blast
    then have apart: "L * i + 9 \<le> L * j \<or> L * j + length pix2 \<le> L * i"
      using fits lpix by (auto simp: L_def)
    have "take 9 (drop (L * i) buf2) = take 9 (drop (L * i) buf1)"
      unfolding buf2_def
      using slot_elsewhere [of "L * j" pix2 buf1 "L * i" 9] room2 room1 apart lpix same lbuf1
      by simp
    with False slot1 show ?thesis
      by simp
  qed
  have "take 9 (drop (Suc (L * i)) (0 # buf2 @ [0])) = take 9 (drop (L * i) buf2)"
  proof -
    have "L * i + 9 \<le> length buf2"
      unfolding buf2_def using length_overwritten [of "L * j" pix2 buf1] room2 room1 lpix same lbuf1
      by simp
    then show ?thesis
      by simp
  qed
  with slot2 have "take 9 (drop (Suc (L * i)) (0 # buf2 @ [0])) = (if j = i then pix2 else pix1)"
    by simp
  moreover have "spi_writes s2 = spi_writes s1 @ [0 # buf2 @ [0]]"
    using w2 same by (simp add: buf2_def)
  moreover have "chip_cmd_buffer s1 = Some buf1"
    using b1 by (simp add: buf1_def)
  ultimately show ?thesis
    using rv1 rv2 sent2 slot1
    unfolding L_def pix1_def pix2_def by auto
qed

theorem failed_write_keeps_pixel_witness:
  "state_wf miwifi_ws2812b_spi_led probed_state
   \<and> 9 \<le> unat (led_ctrl_cmd_len miwifi_ws2812b_spi_led)
   \<and> kzalloc_ok env_eio \<and> spi_write_ret env_eio \<noteq> 0
   \<and> ws2812b_rgb_led_brightness_set_blocking env_eio scale_uniform probed_state 0 255
       = Inr (- 5, failed_state)
   \<and> kzalloc_ok env_ok \<and> spi_write_ret env_ok = 0
   \<and> ws2812b_rgb_led_brightness_set_blocking env_ok scale_uniform failed_state 1 0
       = Inr (0, resent_state)
   \<and> - 5 = spi_write_ret env_eio
   \<and> (\<exists>buf1. chip_cmd_buffer failed_state = Some buf1
         \<and> take 9 (drop (unat (led_ctrl_cmd_len miwifi_ws2812b_spi_led) * 0) buf1)
             = requested_pixel scale_uniform (leds probed_state ! 0) 255)
   \<and> (\<exists>frame. spi_writes resent_state = spi_writes failed_state @ [frame]
         \<and> take 9 (drop (Suc (unat (led_ctrl_cmd_len miwifi_ws2812b_spi_led) * 0)) frame)
             = (if (1::nat) = 0 then requested_pixel scale_uniform (leds failed_state ! 0) 0
                else requested_pixel scale_uniform (leds probed_state ! 0) 255))"
proof -
  have h1: "state_wf miwifi_ws2812b_spi_led probed_state"
    by code_simp
  have h2: "9 \<le> unat (led_ctrl_cmd_len miwifi_ws2812b_spi_led)"
    by (simp add: miwifi_ws2812b_spi_led_def)
  have h3: "kzalloc_ok env_eio" and h4: "spi_write_ret env_eio \<noteq> 0"
    by (simp_all add: env_eio_def)
  have h5: "ws2812b_rgb_led_brightness_set_blocking env_eio scale_uniform probed_state 0 255
       = Inr (- 5, failed_state)"
    by code_simp
  have h6: "kzalloc_ok env_ok" and h7: "spi_write_ret env_ok = 0"
    by (simp_all add: env_ok_def)
  have h8: "ws2812b_rgb_led_brightness_set_blocking env_ok scale_uniform failed_state 1 0
       = Inr (0, resent_state)"
    by code_simp
  show ?thesis
    using failed_write_keeps_pixel [OF h1 h2 h3 h4 h5 h6 h7 h8] h1 h2 h3 h4 h5 h6 h7 h8 by blast
qed

text \<open>
  C2, as stated: the nine bytes are the encodings of green, red, blue in this order.  For
  red 255, green 0, blue 0 the pixel starts with the encoding of 255, and so does the
  payload of the frame sent for LED 0.
\<close>

theorem pixel_order_counterexample:
  "pixel_bytes (ws2812b_set_pixel_value stack_pixel 255 0 0)
     \<noteq> encoding_bytes (ws2812b_set_encoded_pixel 0)
       @ encoding_bytes (ws2812b_set_encoded_pixel 255)
       @ encoding_bytes (ws2812b_set_encoded_pixel 0)
   \<and> ws2812b_rgb_led_brightness_set_blocking env_ok scale_red_only probed_state 0 255
       = Inr (0, red_state)
   \<and> take 9 (drop 1 (last (spi_writes red_state)))
       = encoding_bytes (ws2812b_set_encoded_pixel 255)
         @ encoding_bytes (ws2812b_set_encoded_pixel 0)
         @ encoding_bytes (ws2812b_set_encoded_pixel 0)"
  by code_simp

text \<open>
  C2, amended.  The members of \<open>struct ws2812b_pixel\<close> are declared in the order red, green,
  blue, so the nine bytes of a pixel are the encodings of red, green and blue in this
  order, whatever the order of the three assignments; these are the bytes stored into the
  slot of the LED and sent in the frame.
\<close>

theorem pixel_order_red_green_blue:
  assumes wf: "state_wf cd s" and ok: "kzalloc_ok env"
    and ret: "ws2812b_rgb_led_brightness_set_blocking env calc s i req = Inr (rv, s')"
  shows "pixel_bytes (ws2812b_set_pixel_value spix red green blue)
           = encoding_bytes (ws2812b_set_encoded_pixel red)
             @ encoding_bytes (ws2812b_set_encoded_pixel green)
             @ encoding_bytes (ws2812b_set_encoded_pixel blue)
       \<and> (let mc = calc (mc_ldev (leds s ! i)) req;
              sent = encoding_bytes (ws2812b_set_encoded_pixel (ucast (brightness (subled_info mc ! 0))))
                    @ encoding_bytes (ws2812b_set_encoded_pixel (ucast (brightness (subled_info mc ! 1))))
                    @ encoding_bytes (ws2812b_set_encoded_pixel (ucast (brightness (subled_info mc ! 2))))
          in \<exists>buf' frame. chip_cmd_buffer s' = Some buf' \<and> spi_writes s' = spi_writes s @ [frame]
               \<and> take 9 (drop (unat (led_ctrl_cmd_len cd) * i) buf') = sent
               \<and> take 9 (drop (Suc (unat (led_ctrl_cmd_len cd) * i)) frame) = sent)"
proof -
  define L where "L = unat (led_ctrl_cmd_len cd)"
  define mc where "mc = calc (mc_ldev (leds s ! i)) req"
  define sent where
    "sent = encoding_bytes (ws2812b_set_encoded_pixel (ucast (brightness (subled_info mc ! 0))))
          @ encoding_bytes (ws2812b_set_encoded_pixel (ucast (brightness (subled_info mc ! 1))))
          @ encoding_bytes (ws2812b_set_encoded_pixel (ucast (brightness (subled_info mc ! 2))))"
  have pix: "requested_pixel calc (leds s ! i) req = sent"
    by (simp add: requested_pixel_def Let_def pixel_bytes_set_pixel_value mc_def sent_def)
  have lsent: "length sent = 9"
    using length_requested_pixel [of calc "leds s ! i" req] pix by simp
  from wf ret obtain buf where
    room: "L * i + 9 \<le> length buf"
    and b: "chip_cmd_buffer s' = Some (take (L * i) buf @ sent @ drop (L * i + 9) buf)"
    and w: "spi_writes s' = spi_writes s @ [0 # (take (L * i) buf @ sent @ drop (L * i + 9) buf) @ [0]]"
  proof (cases rule: set_brightness_cases)
    case nomem
    with ok show ?thesis
      by simp
  next
    case (sent buf)
    show ?thesis
      using sent by (intro that [of buf]) (simp_all add: L_def pix)
  qed
  define buf' where "buf' = take (L * i) buf @ sent @ drop (L * i + 9) buf"
  have slot: "take 9 (drop (L * i) buf') = sent"
    unfolding buf'_def using slot_overwritten [of "L * i" sent buf] room lsent by simp
  have "L * i + 9 \<le> length buf'"
    unfolding buf'_def using length_overwritten [of "L * i" sent buf] room lsent by simp
  then have "take 9 (drop (Suc (L * i)) (0 # buf' @ [0])) = take 9 (drop (L * i) buf')"
    by simp
  with slot b w have "\<exists>buf' frame. chip_cmd_buffer s' = Some buf' \<and> spi_writes s' = spi_writes s @ [frame]
               \<and> take 9 (drop (unat (led_ctrl_cmd_len cd) * i) buf') = sent
               \<and> take 9 (drop (Suc (unat (led_ctrl_cmd_len cd) * i)) frame) = sent"
    unfolding L_def buf'_def by simp
  then show ?thesis
    unfolding Let_def sent_def mc_def by (simp add: pixel_bytes_set_pixel_value)
qed

theorem pixel_order_red_green_blue_witness:
  "state_wf miwifi_ws2812b_spi_led probed_state \<and> kzalloc_ok env_ok
   \<and> ws2812b_rgb_led_brightness_set_blocking env_ok scale_red_only probed_state 0 255
       = Inr (0, red_state)
   \<and> pixel_bytes (ws2812b_set_pixel_value stack_pixel 255 0 0)
           = encoding_bytes (ws2812b_set_encoded_pixel 255)
             @ encoding_bytes (ws2812b_set_encoded_pixel 0)
             @ encoding_bytes (ws2812b_set_encoded_pixel 0)
   \<and> (let mc = scale_red_only (mc_ldev (leds probed_state ! 0)) 255;
          sent = encoding_bytes (ws2812b_set_encoded_pixel (ucast (brightness (subled_info mc ! 0))))
                @ encoding_bytes (ws2812b_set_encoded_pixel (ucast (brightness (subled_info mc ! 1))))
                @ encoding_bytes (ws2812b_set_encoded_pixel (ucast (brightness (subled_info mc ! 2))))
      in \<exists>buf' frame. chip_cmd_buffer red_state = Some buf'
           \<and> spi_writes red_state = spi_writes probed_state @ [frame]
           \<and> take 9 (drop (unat (led_ctrl_cmd_len miwifi_ws2812b_spi_led) * 0) buf') = sent
           \<and> take 9 (drop (Suc (unat (led_ctrl_cmd_len miwifi_ws2812b_spi_led) * 0)) frame) = sent)"
proof -
  have h1: "state_wf miwifi_ws2812b_spi_led probed_state"
    by code_simp
  have h2: "kzalloc_ok env_ok"
    by (simp add: env_ok_def)
  have h3: "ws2812b_rgb_led_brightness_set_blocking env_ok scale_red_only probed_state 0 255
       = Inr (0, red_state)"
    by code_simp
  show ?thesis
    using pixel_order_red_green_blue [OF h1 h2 h3, of stack_pixel 255 0 0] h1 h2 h3 by blast
qed

section \<open>Properties of the probe\<close>

text \<open>
  A probe that returns 0 leaves a well-formed state with one LED object per chip, so the
  hypotheses of the theorems about the brightness call hold after every successful probe.
\<close>

lemma state_wf_new_led:
  assumes wf: "state_wf cd s" and k: "length (leds s) < unat (chip_num cd)"
    and led: "cdef led = cd" "unat (chip_id led) = length (leds s)"
      "led_ctrl_cmd led = int (unat (led_ctrl_cmd_len cd) * length (leds s))"
  shows "state_wf cd (s\<lparr> leds := leds s @ [led] \<rparr>)"
  using assms by (simp add: state_wf_def enumerate_append_eq led_wf_def)

lemma state_wf_bookkeeping:
  "state_wf cd (s\<lparr> drvdata := d \<rparr>) = state_wf cd s"
  "state_wf cd (s\<lparr> registered := rs \<rparr>) = state_wf cd s"
  by (simp_all add: state_wf_def)

lemma probe_children_step:
  assumes "led_alloc_ok env (length (leds s))" "subled_alloc_ok env (length (leds s))"
    and "probe_children env calc cd (chip_node # rest) cur s = Inr (rv, s')"
  obtains r1 s1 where
    "ws2812b_rgb_led_brightness_set_blocking (set_env env (length (leds s))) calc
       (s\<lparr> leds := leds s @ [new_led cd chip_node cur] \<rparr>) (length (leds s))
       (default_brightness chip_node) = Inr (r1, s1)"
    "(if register_ret env (length (leds s)) < 0
      then Inr (- ENOMEM, s1\<lparr> drvdata := Some (length (leds s)) \<rparr>)
      else probe_children env calc cd rest (cur + 1)
             (s1\<lparr> drvdata := Some (length (leds s)),
                   registered := registered s1 @ [length (leds s)] \<rparr>)) = Inr (rv, s')"
proof (cases "ws2812b_rgb_led_brightness_set_blocking (set_env env (length (leds s))) calc
       (s\<lparr> leds := leds s @ [new_led cd chip_node cur] \<rparr>) (length (leds s))
       (default_brightness chip_node)")
  case (Inl f)
  then show ?thesis
    using assms by (simp add: Let_def split: if_splits)
next
  case (Inr p)
  obtain r1 s1 where p: "p = (r1, s1)"
    by (cases p)
  show ?thesis
    using assms Inr by (intro that [of r1 s1]) (simp_all add: Let_def p split: if_splits)
qed

lemma probe_children_wf:
  assumes "state_wf cd s" "unat cur = length (leds s)"
    and "length (leds s) + length children \<le> unat (chip_num cd)"
    and "probe_children env calc cd children cur s = Inr (rv, s')"
  shows "state_wf cd s' \<and> (rv = 0 \<longrightarrow> length (leds s') = length (leds s) + length children)"
  using assms
proof (induction children arbitrary: cur s)
  case Nil
  then show ?case
    by simp
next
  case (Cons chip_node rest)
  define k where "k = length (leds s)"
  note wf = Cons.prems(1) and cur = Cons.prems(2) and bound = Cons.prems(3) and res = Cons.prems(4)
  show ?case
  proof (cases "led_alloc_ok env k \<and> subled_alloc_ok env k")
    case False
    then have "s' = s" "rv = - ENOMEM"
      using res by (auto simp: k_def Let_def split: if_splits)
    then show ?thesis
      using wf by (simp add: ENOMEM_def)
  next
    case True
    have wf_in: "state_wf cd (s\<lparr> leds := leds s @ [new_led cd chip_node cur] \<rparr>)"
      using wf bound cur by (intro state_wf_new_led) (simp_all add: new_led_def)
    from True res obtain r1 s1 where
      call: "ws2812b_rgb_led_brightness_set_blocking (set_env env k) calc
               (s\<lparr> leds := leds s @ [new_led cd chip_node cur] \<rparr>) k
               (default_brightness chip_node) = Inr (r1, s1)"
      and after: "(if register_ret env k < 0 then Inr (- ENOMEM, s1\<lparr> drvdata := Some k \<rparr>)
                   else probe_children env calc cd rest (cur + 1)
                          (s1\<lparr> drvdata := Some k, registered := registered s1 @ [k] \<rparr>))
                  = Inr (rv, s')"
      unfolding k_def by (elim conjE probe_children_step)
    have wf1: "state_wf cd s1" and len1: "length (leds s1) = Suc k"
      using state_wf_after_call [OF wf_in call] by (simp_all add: k_def)
    show ?thesis
    proof (cases "register_ret env k < 0")
      case True
      then have "s' = s1\<lparr> drvdata := Some k \<rparr>" "rv = - ENOMEM"
        using after by simp_all
      then show ?thesis
        using wf1 by (simp add: state_wf_bookkeeping ENOMEM_def)
    next
      case False
      define s3 where "s3 = s1\<lparr> drvdata := Some k, registered := registered s1 @ [k] \<rparr>"
      have rec: "probe_children env calc cd rest (cur + 1) s3 = Inr (rv, s')"
        using after False by (simp add: s3_def)
      have wf3: "state_wf cd s3"
        using wf1 by (simp add: s3_def state_wf_bookkeeping)
      have len3: "length (leds s3) = Suc k"
        using len1 by (simp add: s3_def)
      have "Suc k \<le> unat (chip_num cd)"
        using bound by (simp add: k_def)
      moreover have "unat (chip_num cd) < 256"
        using unsigned_less [of "chip_num cd", where 'a = nat] by simp
      ultimately have cur3: "unat (cur + 1) = length (leds s3)"
        using cur by (simp add: unat_word_ariths len3 k_def)
      have bound3: "length (leds s3) + length rest \<le> unat (chip_num cd)"
        using bound by (simp add: len3 k_def)
      from Cons.IH [OF wf3 cur3 bound3 rec] show ?thesis
        by (simp add: len3 k_def)
    qed
  qed
qed

lemma probe_success_wf:
  assumes "spi_ws2812b_probe env calc (Some cd) children = Inr (0, s)"
  shows "state_wf cd s \<and> length (leds s) = unat (chip_num cd)"
proof -
  define s0 where "s0 = initial_state\<lparr> chip_cmd_buffer :=
                    Some (replicate (unat (led_ctrl_cmd_len cd) * unat (chip_num cd)) 0) \<rparr>"
  define mismatch where
    "mismatch \<longleftrightarrow> int (length children) = 0 \<or> int (length children) \<noteq> uint (chip_num cd)"
  have probe: "spi_ws2812b_probe env calc (Some cd) children =
      (if mismatch then Inr (- ENODEV, initial_state)
       else if \<not> cmd_buffer_alloc_ok env then Inr (- ENOMEM, initial_state)
       else probe_children env calc cd children 0 s0)"
    by (simp add: spi_ws2812b_probe_def Let_def mismatch_def s0_def)
  have matching: "\<not> mismatch"
    using assms unfolding probe by (auto simp: ENODEV_def split: if_splits)
  then have "int (length children) = uint (chip_num cd)"
    unfolding mismatch_def by blast
  then have "int (length children) = int (unat (chip_num cd))"
    by (simp only: uint_nat)
  then have count: "length children = unat (chip_num cd)"
    by (simp only: of_nat_eq_iff)
  have allocated: "cmd_buffer_alloc_ok env"
    using assms matching unfolding probe by (auto simp: ENOMEM_def split: if_splits)
  have run: "probe_children env calc cd children 0 s0 = Inr (0, s)"
    using assms matching allocated unfolding probe by simp
  have "state_wf cd s0" "unat (0 :: u8) = length (leds s0)"
    "length (leds s0) + length children \<le> unat (chip_num cd)"
    using count by (simp_all add: s0_def state_wf_def initial_state_def)
  from probe_children_wf [OF this run] count show ?thesis
    by (simp add: s0_def initial_state_def)
qed

text \<open>
  C7.  When no child is found or the number of children differs from \<open>chip_num\<close>, the probe
  returns \<open>-ENODEV\<close> in the initial state: no command buffer is allocated, no LED object
  exists and none is registered.
\<close>

theorem probe_rejects_topology_mismatch:
  assumes "length children = 0 \<or> int (length children) \<noteq> uint (chip_num cd)"
  shows "spi_ws2812b_probe env calc (Some cd) children = Inr (- ENODEV, initial_state)
       \<and> chip_cmd_buffer initial_state = None \<and> leds initial_state = []
       \<and> registered initial_state = [] \<and> spi_writes initial_state = []"
  using assms by (auto simp: spi_ws2812b_probe_def Let_def initial_state_def)

theorem probe_rejects_topology_mismatch_witness:
  "(length [\<lparr> default_state = None \<rparr>] = 0
      \<or> int (length [\<lparr> default_state = None \<rparr>]) \<noteq> uint (chip_num miwifi_ws2812b_spi_led))
   \<and> spi_ws2812b_probe always_ok scale_uniform (Some miwifi_ws2812b_spi_led) [\<lparr> default_state = None \<rparr>]
       = Inr (- ENODEV, initial_state)
   \<and> chip_cmd_buffer initial_state = None \<and> leds initial_state = []
   \<and> registered initial_state = [] \<and> spi_writes initial_state = []"
proof -
  have h: "length [\<lparr> default_state = None \<rparr>] = 0
      \<or> int (length [\<lparr> default_state = None \<rparr>]) \<noteq> uint (chip_num miwifi_ws2812b_spi_led)"
    by (simp add: miwifi_ws2812b_spi_led_def)
  show ?thesis
    using probe_rejects_topology_mismatch [OF h, of always_ok scale_uniform] h by simp
qed

section \<open>Properties of overlapping calls\<close>

text \<open>
  A call that runs alone through the steps reaches the result of the sequential function.
\<close>

lemma run_alone_nomem:
  assumes "i < length (leds s)" "i < length held" "\<not> kzalloc_ok env"
  shows "outcome (run calc (alone s held i req env) [0])
           = Some (ws2812b_rgb_led_brightness_set_blocking env calc s i req)"
  using assms
  by (simp add: alone_def entering_def call_step_def Let_def
        ws2812b_rgb_led_brightness_set_blocking_def)

lemma only_fault: "OutOfBounds = f"
  by (cases f) simp

lemma run_alone:
  assumes "i < length (leds s)" "i < length held" "\<not> held ! i" "kzalloc_ok env"
  shows "outcome (run calc (alone s held i req env) [0, 0, 0, 0, 0, 0, 0, 0])
           = Some (ws2812b_rgb_led_brightness_set_blocking env calc s i req)"
  using assms
  by (simp add: alone_def entering_def call_step_def Let_def
        ws2812b_rgb_led_brightness_set_blocking_def stack_pixel_def only_fault
        list_update_same_conv
        split: option.splits sum.splits)

text \<open>Two calls for the same LED exclude each other: the second waits at \<open>mutex_lock\<close>.\<close>

lemma same_led_excluded:
  "run scale_uniform same_led_calls [0, 0, 1, 1] = Blocked"
  by code_simp

text \<open>
  C6.  The claim says that one lock per group keeps the calls of different LEDs apart.
  The driver has one mutex per LED object.  With a call for LED 0 and a call for LED 1 of
  the same group, both mutexes are held and both calls are in their critical sections after
  eight steps.  When the call for LED 1 then runs to its end before the call for LED 0
  writes, both calls return 0, the buffer holds LED 1 switched off, and the last frame on
  the bus is the one LED 0 had assembled before: it still shows LED 1 at full brightness.
\<close>

theorem different_leds_overlap:
  "(case run scale_uniform two_calls [0, 0, 0, 0, 0, 1, 1, 1] of
      Stepped sys \<Rightarrow>
        mutex_held sys = [True, True] \<and> list_all in_critical_section (running sys)
    | Blocked \<Rightarrow> False | Finished \<Rightarrow> False | Faulted \<Rightarrow> False)
   \<and> (case run scale_uniform two_calls [0, 0, 0, 0, 0, 1, 1, 1, 1, 1, 1, 1, 1, 0, 0, 0] of
      Stepped sys \<Rightarrow>
        map call_pc (running sys) = [Returned, Returned]
        \<and> map call_ret (running sys) = [0, 0]
        \<and> chip_cmd_buffer (shared sys)
            = Some [219, 109, 182, 219, 109, 182, 219, 109, 182, 146, 73, 36, 146, 73, 36, 146, 73, 36]
        \<and> last (spi_writes (shared sys))
            = [0, 219, 109, 182, 219, 109, 182, 219, 109, 182,
                  219, 109, 182, 219, 109, 182, 219, 109, 182, 0]
    | Blocked \<Rightarrow> False | Finished \<Rightarrow> False | Faulted \<Rightarrow> False)"
proof -
  have both_inside:
    "(case run scale_uniform two_calls [0, 0, 0, 0, 0, 1, 1, 1] of
        Stepped sys \<Rightarrow>
          mutex_held sys = [True, True] \<and> list_all in_critical_section (running sys)
      | Blocked \<Rightarrow> False | Finished \<Rightarrow> False | Faulted \<Rightarrow> False)"
    by code_simp
  have stale_frame:
    "(case run scale_uniform two_calls [0, 0, 0, 0, 0, 1, 1, 1, 1, 1, 1, 1, 1, 0, 0, 0] of
        Stepped sys \<Rightarrow>
          map call_pc (running sys) = [Returned, Returned]
          \<and> map call_ret (running sys) = [0, 0]
          \<and> chip_cmd_buffer (shared sys)
              = Some [219, 109, 182, 219, 109, 182, 219, 109, 182, 146, 73, 36, 146, 73, 36, 146, 73, 36]
          \<and> last (spi_writes (shared sys))
              = [0, 219, 109, 182, 219, 109, 182, 219, 109, 182,
                    219, 109, 182, 219, 109, 182, 219, 109, 182, 0]
      | Blocked \<Rightarrow> False | Finished \<Rightarrow> False | Faulted \<Rightarrow> False)"
    by code_simp
  from both_inside stale_frame show ?thesis
    by (rule conjI)
qed

end
